theory Spec2Isabelle
  imports Main "HOL-Library.Word"
begin

unbundle bit_operations_syntax

section \<open>Values: bytes, strings, runes, failures\<close>

text \<open>
  A Go \<^verbatim>\<open>[]byte\<close> is a list of 8-bit words. A Go \<^verbatim>\<open>string\<close> is a sequence of bytes
  as well; it is modelled as a HOL \<open>string\<close>, whose characters are exactly the 256 byte
  values, so that \<^verbatim>\<open>len(str)\<close> is \<open>length\<close>. A \<^verbatim>\<open>rune\<close> is an \<^verbatim>\<open>int32\<close>.
\<close>

type_synonym byte = "8 word"
type_synonym uint32 = "32 word"
type_synonym rune = "32 word"

text \<open>
  A run of the program ends with a value, with a returned \<^verbatim>\<open>error\<close>, or with a panic.
  \<open>KeychainError\<close> stands for the errors of the key-derivation package
  (\<^verbatim>\<open>hdkeychain\<close>), which is not part of this repository; its payload identifies the error.
\<close>

datatype error =
    Panic string
  | StructuralError string
  | KeychainError string

definition byte_of_char :: "char \<Rightarrow> byte" where
  "byte_of_char c = of_nat (of_char c)"

definition char_of_byte :: "byte \<Rightarrow> char" where
  "char_of_byte b = char_of (unat b)"

section \<open>UTF-8 as the Go runtime reads and writes it\<close>

text \<open>
  \<^verbatim>\<open>for _, r := range str\<close> decodes \<^verbatim>\<open>str\<close> rune by rune: a byte below \<^verbatim>\<open>0x80\<close> is a
  rune of its own; otherwise the runtime's \<^verbatim>\<open>decoderune\<close> reads a sequence of two to four
  bytes, and yields \<^verbatim>\<open>U+FFFD\<close> and advances by one byte when the sequence is malformed.
  \<open>decoderune\<close> returns the rune and the number of bytes consumed.
\<close>

definition runeError :: rune where
  "runeError = 0xFFFD"

definition cont_byte :: "byte \<Rightarrow> bool" where
  "cont_byte b \<longleftrightarrow> 0x80 \<le> b \<and> b \<le> 0xBF"

fun decoderune :: "byte list \<Rightarrow> rune \<times> nat" where
  "decoderune [] = (runeError, 1)"
| "decoderune (b0 # bs) =
    (if 0xC0 \<le> b0 \<and> b0 < 0xE0 then
       (case bs of
          b1 # _ \<Rightarrow>
            if cont_byte b1 then
              (let r = push_bit 6 (ucast (b0 AND 0x1F)) OR ucast (b1 AND 0x3F) :: rune
               in if 0x7F < r then (r, 2) else (runeError, 1))
            else (runeError, 1)
        | _ \<Rightarrow> (runeError, 1))
     else if 0xE0 \<le> b0 \<and> b0 < 0xF0 then
       (case bs of
          b1 # b2 # _ \<Rightarrow>
            if cont_byte b1 \<and> cont_byte b2 then
              (let r = push_bit 12 (ucast (b0 AND 0x0F)) OR push_bit 6 (ucast (b1 AND 0x3F))
                       OR ucast (b2 AND 0x3F) :: rune
               in if 0x7FF < r \<and> \<not> (0xD800 \<le> r \<and> r \<le> 0xDFFF) then (r, 3)
                  else (runeError, 1))
            else (runeError, 1)
        | _ \<Rightarrow> (runeError, 1))
     else if 0xF0 \<le> b0 \<and> b0 < 0xF8 then
       (case bs of
          b1 # b2 # b3 # _ \<Rightarrow>
            if cont_byte b1 \<and> cont_byte b2 \<and> cont_byte b3 then
              (let r = push_bit 18 (ucast (b0 AND 0x07)) OR push_bit 12 (ucast (b1 AND 0x3F))
                       OR push_bit 6 (ucast (b2 AND 0x3F)) OR ucast (b3 AND 0x3F) :: rune
               in if 0xFFFF < r \<and> r \<le> 0x10FFFF then (r, 4) else (runeError, 1))
            else (runeError, 1)
        | _ \<Rightarrow> (runeError, 1))
     else (runeError, 1))"

text \<open>The runes a \<^verbatim>\<open>range\<close> loop over the string visits, in order.\<close>

function range_runes :: "byte list \<Rightarrow> rune list" where
  "range_runes [] = []"
| "range_runes (b # bs) =
    (if b < 0x80 then ucast b # range_runes bs
     else (case decoderune (b # bs) of
             (r, w) \<Rightarrow> r # range_runes (drop w (b # bs))))"
  by pat_completeness auto

lemma decoderune_width: "0 < snd (decoderune bs)"
  by (cases bs) (auto simp: Let_def split: list.splits)

termination range_runes
proof (relation "measure length", goal_cases)
  case 1
  show ?case by simp
next
  case 2
  show ?case by simp
next
  case (3 b bs r w)
  from 3(2) have "w = snd (decoderune (b # bs))"
    by (metis snd_conv)
  then have "0 < w"
    by (simp only: decoderune_width)
  then show ?case by simp
qed

text \<open>
  \<^verbatim>\<open>string(chunk)\<close> for a \<^verbatim>\<open>[]rune\<close> writes every rune with the runtime's
  \<^verbatim>\<open>encoderune\<close>; a surrogate or a value above \<^verbatim>\<open>U+10FFFF\<close> is written as \<^verbatim>\<open>U+FFFD\<close>.
\<close>

definition encode3 :: "rune \<Rightarrow> byte list" where
  "encode3 r = [0xE0 OR ucast (drop_bit 12 r),
                0x80 OR (ucast (drop_bit 6 r) AND 0x3F),
                0x80 OR (ucast r AND 0x3F)]"

definition encoderune :: "rune \<Rightarrow> byte list" where
  "encoderune r =
    (if r \<le> 0x7F then [ucast r]
     else if r \<le> 0x7FF then
       [0xC0 OR ucast (drop_bit 6 r), 0x80 OR (ucast r AND 0x3F)]
     else if 0x10FFFF < r \<or> (0xD800 \<le> r \<and> r \<le> 0xDFFF) then encode3 runeError
     else if r \<le> 0xFFFF then encode3 r
     else [0xF0 OR ucast (drop_bit 18 r),
           0x80 OR (ucast (drop_bit 12 r) AND 0x3F),
           0x80 OR (ucast (drop_bit 6 r) AND 0x3F),
           0x80 OR (ucast r AND 0x3F)])"

definition string_of_runes :: "rune list \<Rightarrow> string" where
  "string_of_runes rs = map char_of_byte (concat (map encoderune rs))"

definition runes_of_string :: "string \<Rightarrow> rune list" where
  "runes_of_string s = range_runes (map byte_of_char s)"

section \<open>The string helpers\<close>

text \<open>
  \<^verbatim>\<open>SplitN\<close> (main.go, lines 123 to 142). The loop state is the list of finished
  chunks, the buffer \<^verbatim>\<open>chunk\<close> of \<^verbatim>\<open>n\<close> runes and the write index \<^verbatim>\<open>i\<close>. The store
  \<^verbatim>\<open>chunk[i] = r\<close> panics when \<^verbatim>\<open>i\<close> is not below the buffer's length, and
  \<^verbatim>\<open>make([]rune, n)\<close> panics for a negative \<^verbatim>\<open>n\<close>.
\<close>

fun SplitN_loop ::
  "int \<Rightarrow> rune list \<Rightarrow> string list \<Rightarrow> rune list \<Rightarrow> nat
    \<Rightarrow> error + (string list \<times> rune list \<times> nat)" where
  "SplitN_loop n [] chunks chunk i = Inr (chunks, chunk, i)"
| "SplitN_loop n (r # rs) chunks chunk i =
    (if length chunk \<le> i then Inl (Panic ''index out of range'')
     else
       (let chunk' = chunk[i := r]; i' = i + 1
        in if int i' = n
           then SplitN_loop n rs (chunks @ [string_of_runes chunk']) chunk' 0
           else SplitN_loop n rs chunks chunk' i'))"

definition SplitN :: "string \<Rightarrow> int \<Rightarrow> error + string list" where
  "SplitN str n =
    (if n \<ge> int (length str) then Inr [str]
     else if n < 0 then Inl (Panic ''makeslice: len out of range'')
     else
       (case SplitN_loop n (runes_of_string str) [] (replicate (nat n) 0) 0 of
          Inl e \<Rightarrow> Inl e
        | Inr (chunks, chunk, i) \<Rightarrow>
            Inr (if i > 0 then chunks @ [string_of_runes (take i chunk)] else chunks)))"

text \<open>\<^verbatim>\<open>strings.Join\<close>.\<close>

fun Join :: "string list \<Rightarrow> string \<Rightarrow> string" where
  "Join [] sep = []"
| "Join [x] sep = x"
| "Join (x # y # ys) sep = x @ sep @ Join (y # ys) sep"

text \<open>
  \<^verbatim>\<open>strings.ToLower\<close> on a string of bytes below \<^verbatim>\<open>0x80\<close>: the letters \<^verbatim>\<open>A\<close> to \<^verbatim>\<open>Z\<close>
  move to \<^verbatim>\<open>a\<close> to \<^verbatim>\<open>z\<close>, every other byte stays. (On a string with a byte from \<^verbatim>\<open>0x80\<close>
  on, Go maps the runes through its Unicode tables, which are no part of this
  development; this definition leaves such bytes as they are. The program only passes
  base-32 text, see \<open>ascii_EncodeToString\<close> below.)
\<close>

definition lower_char :: "char \<Rightarrow> char" where
  "lower_char c =
    (if (0x41::nat) \<le> of_char c \<and> of_char c \<le> (0x5A::nat)
     then char_of (of_char c + (0x20::nat)) else c)"

definition ToLower :: "string \<Rightarrow> string" where
  "ToLower s = map lower_char s"

section \<open>encoding/base32\<close>

text \<open>The alphabet of \<^verbatim>\<open>base32.StdEncoding\<close>.\<close>

definition encodeStd :: string where
  "encodeStd = ''ABCDEFGHIJKLMNOPQRSTUVWXYZ234567''"

text \<open>
  One pass of the loop of \<^verbatim>\<open>Encoding.Encode\<close>: the 5-bit values \<^verbatim>\<open>b[0..7]\<close> unpacked
  from up to five source bytes. The cases of the \<^verbatim>\<open>switch\<close> fall through, so a byte that
  the source does not have contributes no bits.
\<close>

definition quantum :: "byte list \<Rightarrow> byte list" where
  "quantum src =
    (let s = (\<lambda>k. if k < length src then src ! k else 0) in
     [drop_bit 3 (s 0),
      (push_bit 2 (s 0) AND 0x1F) OR (drop_bit 6 (s 1) AND 0x1F),
      drop_bit 1 (s 1) AND 0x1F,
      (push_bit 4 (s 1) AND 0x1F) OR (drop_bit 4 (s 2) AND 0x1F),
      (push_bit 1 (s 2) AND 0x1F) OR drop_bit 7 (s 3),
      drop_bit 2 (s 3) AND 0x1F,
      (push_bit 3 (s 3) AND 0x1F) OR drop_bit 5 (s 4),
      s 4 AND 0x1F])"

definition encode_chars :: "nat \<Rightarrow> byte list \<Rightarrow> string" where
  "encode_chars room src =
    take room (map (\<lambda>v. encodeStd ! unat (v AND 31)) (quantum src))"

text \<open>
  \<^verbatim>\<open>Encode\<close> with \<^verbatim>\<open>NoPadding\<close>: \<open>room\<close> is the room left in \<^verbatim>\<open>dst\<close>. A quantum of
  fewer than five bytes is the last one.
\<close>

fun Encode :: "nat \<Rightarrow> byte list \<Rightarrow> string" where
  "Encode room (s0 # s1 # s2 # s3 # s4 # rest) =
     encode_chars room [s0, s1, s2, s3, s4] @ Encode (room - 8) rest"
| "Encode room [] = []"
| "Encode room src = encode_chars room src"

definition EncodedLen :: "nat \<Rightarrow> nat" where
  "EncodedLen n = (n * 8 + 4) div 5"

definition EncodeToString :: "byte list \<Rightarrow> string" where
  "EncodeToString src = Encode (EncodedLen (length src)) src"

section \<open>hash/crc32 and encoding/binary\<close>

text \<open>
  \<^verbatim>\<open>crc32.ChecksumIEEE\<close> is \<^verbatim>\<open>Update(0, IEEETable, data)\<close>; the table and the update are
  those of the package's portable implementation (\<^verbatim>\<open>simplePopulateTable\<close>,
  \<^verbatim>\<open>simpleUpdate\<close>), with the reversed IEEE polynomial \<^verbatim>\<open>0xedb88320\<close>.
\<close>

definition IEEE :: uint32 where
  "IEEE = 0xedb88320"

definition crc_step :: "uint32 \<Rightarrow> uint32" where
  "crc_step crc = (if crc AND 1 = 1 then drop_bit 1 crc XOR IEEE else drop_bit 1 crc)"

definition IEEETable :: "byte \<Rightarrow> uint32" where
  "IEEETable i = (crc_step ^^ 8) (ucast i)"

definition simpleUpdate :: "uint32 \<Rightarrow> byte list \<Rightarrow> uint32" where
  "simpleUpdate crc p =
     NOT (fold (\<lambda>v c. IEEETable (ucast c XOR v) XOR drop_bit 8 c) p (NOT crc))"

definition ChecksumIEEE :: "byte list \<Rightarrow> uint32" where
  "ChecksumIEEE data = simpleUpdate 0 data"

text \<open>\<^verbatim>\<open>binary.BigEndian.PutUint32\<close> into a fresh buffer of four bytes.\<close>

definition PutUint32 :: "uint32 \<Rightarrow> byte list" where
  "PutUint32 v = [ucast (drop_bit 24 v), ucast (drop_bit 16 v), ucast (drop_bit 8 v), ucast v]"

section \<open>crypto/sha256: Sum224\<close>

text \<open>
  The state of a digest is the eight words \<^verbatim>\<open>h[0..7]\<close>. \<^verbatim>\<open>Sum224\<close> starts from the
  SHA-224 initial values, feeds the data followed by the padding through the block
  function \<^verbatim>\<open>blockGeneric\<close>, 64 bytes at a time, and returns \<^verbatim>\<open>h[0..6]\<close> in big-endian
  order. (The package buffers a partial block between writes; the blocks it hashes are
  those of the data followed by the padding.)
\<close>

type_synonym digest = "uint32 \<times> uint32 \<times> uint32 \<times> uint32 \<times> uint32 \<times> uint32 \<times> uint32 \<times> uint32"

definition init224 :: digest where
  "init224 = (0xC1059ED8, 0x367CD507, 0x3070DD17, 0xF70E5939,
              0xFFC00B31, 0x68581511, 0x64F98FA7, 0xBEFA4FA4)"

definition K_sha :: "uint32 list" where
  "K_sha =
    [0x428A2F98, 0x71374491, 0xB5C0FBCF, 0xE9B5DBA5, 0x3956C25B, 0x59F111F1, 0x923F82A4, 0xAB1C5ED5,
     0xD807AA98, 0x12835B01, 0x243185BE, 0x550C7DC3, 0x72BE5D74, 0x80DEB1FE, 0x9BDC06A7, 0xC19BF174,
     0xE49B69C1, 0xEFBE4786, 0x0FC19DC6, 0x240CA1CC, 0x2DE92C6F, 0x4A7484AA, 0x5CB0A9DC, 0x76F988DA,
     0x983E5152, 0xA831C66D, 0xB00327C8, 0xBF597FC7, 0xC6E00BF3, 0xD5A79147, 0x06CA6351, 0x14292967,
     0x27B70A85, 0x2E1B2138, 0x4D2C6DFC, 0x53380D13, 0x650A7354, 0x766A0ABB, 0x81C2C92E, 0x92722C85,
     0xA2BFE8A1, 0xA81A664B, 0xC24B8B70, 0xC76C51A3, 0xD192E819, 0xD6990624, 0xF40E3585, 0x106AA070,
     0x19A4C116, 0x1E376C08, 0x2748774C, 0x34B0BCB5, 0x391C0CB3, 0x4ED8AA4A, 0x5B9CCA4F, 0x682E6FF3,
     0x748F82EE, 0x78A5636F, 0x84C87814, 0x8CC70208, 0x90BEFFFA, 0xA4506CEB, 0xBEF9A3F7, 0xC67178F2]"

text \<open>\<^verbatim>\<open>bits.RotateLeft32(x, -k)\<close> rotates to the right by \<open>k\<close>.\<close>

definition rotr :: "nat \<Rightarrow> uint32 \<Rightarrow> uint32" where
  "rotr k x = word_rotr k x"

text \<open>The first loop of a block: the sixteen big-endian words of the 64 bytes.\<close>

definition load_words :: "byte list \<Rightarrow> uint32 list" where
  "load_words p =
    map (\<lambda>i. push_bit 24 (ucast (p ! (4 * i))) OR push_bit 16 (ucast (p ! (4 * i + 1)))
             OR push_bit 8 (ucast (p ! (4 * i + 2))) OR ucast (p ! (4 * i + 3)))
        [0..<16]"

text \<open>The second loop: \<^verbatim>\<open>w[16..63]\<close>, each from four earlier entries.\<close>

definition extend_w :: "uint32 list \<Rightarrow> nat \<Rightarrow> uint32 list" where
  "extend_w w i =
    (let v1 = w ! (i - 2);
         t1 = rotr 17 v1 XOR rotr 19 v1 XOR drop_bit 10 v1;
         v2 = w ! (i - 15);
         t2 = rotr 7 v2 XOR rotr 18 v2 XOR drop_bit 3 v2
     in w @ [t1 + w ! (i - 7) + t2 + w ! (i - 16)])"

definition schedule :: "byte list \<Rightarrow> uint32 list" where
  "schedule p = foldl extend_w (load_words p) [16..<64]"

text \<open>The third loop: one round on the working variables \<^verbatim>\<open>a\<close> to \<^verbatim>\<open>h\<close>.\<close>

fun round_sha :: "uint32 list \<Rightarrow> digest \<Rightarrow> nat \<Rightarrow> digest" where
  "round_sha w (a, b, c, d, e, f, g, h) i =
    (let t1 = h + (rotr 6 e XOR rotr 11 e XOR rotr 25 e) + ((e AND f) XOR (NOT e AND g))
              + K_sha ! i + w ! i;
         t2 = (rotr 2 a XOR rotr 13 a XOR rotr 22 a) + ((a AND b) XOR (a AND c) XOR (b AND c))
     in (t1 + t2, a, b, c, d + t1, e, f, g))"

fun block :: "digest \<Rightarrow> byte list \<Rightarrow> digest" where
  "block (h0, h1, h2, h3, h4, h5, h6, h7) p =
    (case foldl (round_sha (schedule p)) (h0, h1, h2, h3, h4, h5, h6, h7) [0..<64] of
       (a, b, c, d, e, f, g, h) \<Rightarrow>
         (h0 + a, h1 + b, h2 + c, h3 + d, h4 + e, h5 + f, h6 + g, h7 + h))"

function blockGeneric :: "digest \<Rightarrow> byte list \<Rightarrow> digest" where
  "blockGeneric dig p =
    (if length p \<ge> 64 then blockGeneric (block dig (take 64 p)) (drop 64 p) else dig)"
  by pat_completeness auto
termination
  by (relation "measure (\<lambda>(dig, p). length p)") auto

declare blockGeneric.simps [simp del]

definition PutUint64 :: "64 word \<Rightarrow> byte list" where
  "PutUint64 v = map (\<lambda>k. ucast (drop_bit (8 * (7 - k)) v)) [0..<8]"

text \<open>The padding of \<^verbatim>\<open>checkSum\<close>: a \<^verbatim>\<open>0x80\<close> byte, zeros up to 56 bytes modulo 64, and
  the length of the data in bits as a 64-bit big-endian number.\<close>

definition padding :: "nat \<Rightarrow> byte list" where
  "padding len =
    (let t = (if len mod 64 < 56 then 56 - len mod 64 else 64 + 56 - len mod 64)
     in 0x80 # replicate (t - 1) 0 @ PutUint64 (push_bit 3 (of_nat len)))"

definition Sum224 :: "byte list \<Rightarrow> byte list" where
  "Sum224 data =
    (case blockGeneric init224 (data @ padding (length data)) of
       (h0, h1, h2, h3, h4, h5, h6, h7) \<Rightarrow>
         PutUint32 h0 @ PutUint32 h1 @ PutUint32 h2 @ PutUint32 h3
         @ PutUint32 h4 @ PutUint32 h5 @ PutUint32 h6)"

section \<open>crypto/elliptic and the curve of btcec\<close>

record CurveParams =
  P :: int
  N :: int
  B :: int
  Gx :: int
  Gy :: int
  BitSize :: int

text \<open>\<^verbatim>\<open>btcec.S256()\<close>: the parameters of secp256k1.\<close>

definition S256 :: CurveParams where
  "S256 = \<lparr>
     P = 0xFFFFFFFFFFFFFFFFFFFFFFFFFFFFFFFFFFFFFFFFFFFFFFFFFFFFFFFEFFFFFC2F,
     N = 0xFFFFFFFFFFFFFFFFFFFFFFFFFFFFFFFEBAAEDCE6AF48A03BBFD25E8CD0364141,
     B = 7,
     Gx = 0x79BE667EF9DCBBAC55A06295CE870B07029BFCDB2DCE28D959F2815B16F81798,
     Gy = 0x483ADA7726A3C4655DA4FBFC0E1108A8FD17B448A68554199C47D08FFB10D4B8,
     BitSize = 256 \<rparr>"

text \<open>
  \<^verbatim>\<open>btcec.PublicKey\<close> is an \<^verbatim>\<open>ecdsa.PublicKey\<close>: a curve and the two coordinates of the
  point, each a \<^verbatim>\<open>big.Int\<close>.
\<close>

record PublicKey =
  Curve :: CurveParams
  X :: int
  Y :: int

text \<open>
  \<^verbatim>\<open>IsOnCurve\<close> of the curve of \<^verbatim>\<open>btcec\<close> compares \<open>y\<^sup>2\<close> with \<open>x\<^sup>3 + 7\<close> in the field;
  the coordinates enter by their magnitude.
\<close>

definition IsOnCurve :: "CurveParams \<Rightarrow> int \<Rightarrow> int \<Rightarrow> bool" where
  "IsOnCurve curve x y \<longleftrightarrow> (\<bar>y\<bar> ^ 2) mod P curve = (\<bar>x\<bar> ^ 3 + B curve) mod P curve"

text \<open>\<^verbatim>\<open>big.Int.FillBytes\<close> into a buffer of \<open>n\<close> bytes: the magnitude, big-endian,
  with leading zeros. The caller checks that the value fits.\<close>

definition FillBytes :: "nat \<Rightarrow> int \<Rightarrow> byte list" where
  "FillBytes n x = map (\<lambda>k. of_int (\<bar>x\<bar> div 256 ^ (n - 1 - k))) [0..<n]"

text \<open>
  \<^verbatim>\<open>elliptic.Marshal\<close>: the uncompressed form of a point. It panics on a point that is
  not on the curve (the pair \<open>(0, 0)\<close>, the point at infinity by convention, is let
  through), and \<^verbatim>\<open>FillBytes\<close> panics on a coordinate that does not fit the field's
  byte length. (Releases of Go before 1.19 have no curve check; for points on the curve
  all releases agree.)
\<close>

definition Marshal :: "CurveParams \<Rightarrow> int \<Rightarrow> int \<Rightarrow> error + byte list" where
  "Marshal curve x y =
    (let byteLen = nat ((BitSize curve + 7) div 8) in
     if \<not> (x = 0 \<and> y = 0) \<and> \<not> IsOnCurve curve x y
     then Inl (Panic ''crypto/elliptic: attempted operation on invalid point'')
     else if 256 ^ byteLen \<le> \<bar>x\<bar> \<or> 256 ^ byteLen \<le> \<bar>y\<bar>
     then Inl (Panic ''math/big: buffer too small to fit value'')
     else Inr (4 # FillBytes byteLen x @ FillBytes byteLen y))"

section \<open>encoding/asn1: Marshal on the types of the program\<close>

type_synonym ObjectIdentifier = "int list"

record BitString =
  Bytes :: "byte list"
  BitLength :: int

text \<open>The two structs of main.go (lines 19 to 27).\<close>

record ECPubKeyMetadata =
  ECPubKeyOID :: ObjectIdentifier
  NamedCurveOID :: ObjectIdentifier

record ECPubKey =
  Metadata :: ECPubKeyMetadata
  PublicKey :: BitString

text \<open>Go's \<^verbatim>\<open>%\<close> truncates towards zero.\<close>

definition go_rem :: "int \<Rightarrow> int \<Rightarrow> int" where
  "go_rem a b = a - b * (sgn a * sgn b * (\<bar>a\<bar> div \<bar>b\<bar>))"

function b128_loop :: "int \<Rightarrow> nat" where
  "b128_loop i = (if i > 0 then Suc (b128_loop (drop_bit 7 i)) else 0)"
  by pat_completeness auto
termination
  by (relation "measure nat") (auto simp: drop_bit_eq_div int_div_less_self)

declare b128_loop.simps [simp del]

definition base128IntLength :: "int \<Rightarrow> nat" where
  "base128IntLength n = (if n = 0 then 1 else b128_loop n)"

definition appendBase128Int :: "int \<Rightarrow> byte list" where
  "appendBase128Int n =
    map (\<lambda>i. let o7 = (of_int (drop_bit (i * 7) n) :: byte) AND 0x7f
              in if i \<noteq> 0 then o7 OR 0x80 else o7)
        (rev [0..<base128IntLength n])"

function lengthLength :: "int \<Rightarrow> nat" where
  "lengthLength i = (if i > 255 then Suc (lengthLength (drop_bit 8 i)) else 1)"
  by pat_completeness auto
termination
  by (relation "measure nat") (auto simp: drop_bit_eq_div int_div_less_self)

declare lengthLength.simps [simp del]

definition appendLength :: "int \<Rightarrow> byte list" where
  "appendLength i = map (\<lambda>n. of_int (drop_bit ((n - 1) * 8) i)) (rev [1..<Suc (lengthLength i)])"

text \<open>
  \<^verbatim>\<open>appendTagAndLength\<close>: the identifier octets for a class, the compound bit and a tag
  number, then the length octets, short form below 128 and long form from there on.
\<close>

definition appendTagAndLength :: "int \<Rightarrow> bool \<Rightarrow> int \<Rightarrow> int \<Rightarrow> byte list" where
  "appendTagAndLength cls isCompound tag len =
    (let b = push_bit 6 (of_int cls :: byte) OR (if isCompound then 0x20 else 0)
     in (if tag \<ge> 31 then (b OR 0x1f) # appendBase128Int tag else [b OR of_int tag])
        @ (if len \<ge> 128 then (0x80 OR of_nat (lengthLength len)) # appendLength len
           else [of_int len]))"

definition ClassUniversal :: int where "ClassUniversal = 0"
definition TagBitString :: int where "TagBitString = 3"
definition TagOID :: int where "TagOID = 6"
definition TagSequence :: int where "TagSequence = 16"

text \<open>The body of an object identifier; \<^verbatim>\<open>makeObjectIdentifier\<close> refuses an identifier
  that has no two leading components in range.\<close>

definition makeObjectIdentifier :: "ObjectIdentifier \<Rightarrow> error + byte list" where
  "makeObjectIdentifier oid =
    (if length oid < 2 \<or> oid ! 0 > 2 \<or> (oid ! 0 < 2 \<and> oid ! 1 \<ge> 40)
     then Inl (StructuralError ''invalid object identifier'')
     else Inr (appendBase128Int (oid ! 0 * 40 + oid ! 1)
               @ concat (map appendBase128Int (drop 2 oid))))"

text \<open>The body of a bit string: the number of unused bits of the last byte, then the
  bytes.\<close>

definition bitStringEncoder :: "BitString \<Rightarrow> byte list" where
  "bitStringEncoder b = of_int (go_rem (8 - go_rem (BitLength b) 8) 8) # Bytes b"

text \<open>\<^verbatim>\<open>makeField\<close> for a value of each type in the struct: the body, under its universal
  tag and its length. A struct is a sequence of its fields in order, and the first field
  that fails gives the error.\<close>

definition makeField_ObjectIdentifier :: "ObjectIdentifier \<Rightarrow> error + byte list" where
  "makeField_ObjectIdentifier oid =
    (case makeObjectIdentifier oid of
       Inl err \<Rightarrow> Inl err
     | Inr body \<Rightarrow>
         Inr (appendTagAndLength ClassUniversal False TagOID (int (length body)) @ body))"

definition makeField_BitString :: "BitString \<Rightarrow> error + byte list" where
  "makeField_BitString b =
    (let body = bitStringEncoder b
     in Inr (appendTagAndLength ClassUniversal False TagBitString (int (length body)) @ body))"

definition makeField_ECPubKeyMetadata :: "ECPubKeyMetadata \<Rightarrow> error + byte list" where
  "makeField_ECPubKeyMetadata m =
    (case makeField_ObjectIdentifier (ECPubKeyOID m) of
       Inl err \<Rightarrow> Inl err
     | Inr f0 \<Rightarrow>
        (case makeField_ObjectIdentifier (NamedCurveOID m) of
           Inl err \<Rightarrow> Inl err
         | Inr f1 \<Rightarrow>
            (let body = f0 @ f1
             in Inr (appendTagAndLength ClassUniversal True TagSequence (int (length body))
                     @ body))))"

definition makeField_ECPubKey :: "ECPubKey \<Rightarrow> error + byte list" where
  "makeField_ECPubKey k =
    (case makeField_ECPubKeyMetadata (Metadata k) of
       Inl err \<Rightarrow> Inl err
     | Inr f0 \<Rightarrow>
        (case makeField_BitString (PublicKey k) of
           Inl err \<Rightarrow> Inl err
         | Inr f1 \<Rightarrow>
            (let body = f0 @ f1
             in Inr (appendTagAndLength ClassUniversal True TagSequence (int (length body))
                     @ body))))"

definition asn1_Marshal :: "ECPubKey \<Rightarrow> error + byte list" where
  "asn1_Marshal val = makeField_ECPubKey val"

section \<open>The program\<close>

text \<open>\<^verbatim>\<open>SECP256K1\<close> (main.go, lines 108 to 110).\<close>

definition SECP256K1 :: ObjectIdentifier where
  "SECP256K1 = [1, 3, 132, 0, 10]"

text \<open>
  \<^verbatim>\<open>EncodeECPubKey\<close> (lines 94 to 106). \<^verbatim>\<open>ToECDSA\<close> is a conversion of the pointer, the
  point is that of the key. The curve is \<^verbatim>\<open>btcec.S256()\<close>, whatever curve the key
  carries. The bit string is built with its \<^verbatim>\<open>Bytes\<close> only, so its \<^verbatim>\<open>BitLength\<close> is the
  zero value. A panic while the argument of \<^verbatim>\<open>asn1.Marshal\<close> is built ends the call.
\<close>

definition EncodeECPubKey :: "PublicKey \<Rightarrow> error + byte list" where
  "EncodeECPubKey pubKey =
    (let curve = S256; point = pubKey in
     case Marshal curve (X point) (Y point) of
       Inl panic \<Rightarrow> Inl panic
     | Inr bytes \<Rightarrow>
         asn1_Marshal \<lparr>
           Metadata = \<lparr>
             ECPubKeyOID = [1, 2, 840, 10045, 2, 1],
             NamedCurveOID = SECP256K1 \<rparr>,
           PublicKey = \<lparr> Bytes = bytes, BitLength = 0 \<rparr> \<rparr>)"

text \<open>
  \<^verbatim>\<open>SelfAuthenticating\<close> (lines 112 to 121). \<^verbatim>\<open>WithPadding(NoPadding)\<close> is the encoder
  modelled by \<open>EncodeToString\<close>. A panic of \<^verbatim>\<open>SplitN\<close> ends the call.
\<close>

definition SelfAuthenticating :: "byte list \<Rightarrow> error + string" where
  "SelfAuthenticating der =
    (let digest = Sum224 der;
         tag = [2];
         data = digest @ tag;
         crc = PutUint32 (ChecksumIEEE data);
         str = EncodeToString (crc @ data)
     in case SplitN (ToLower str) 5 of
          Inl panic \<Rightarrow> Inl panic
        | Inr chunks \<Rightarrow> Inr (Join chunks ''-''))"

text \<open>\<^verbatim>\<open>ECPubKeyToPrincipal\<close> (lines 86 to 92).\<close>

definition ECPubKeyToPrincipal :: "PublicKey \<Rightarrow> error + string" where
  "ECPubKeyToPrincipal pubKey =
    (case EncodeECPubKey pubKey of
       Inl err \<Rightarrow> Inl err
     | Inr der \<Rightarrow> SelfAuthenticating der)"

text \<open>
  \<^verbatim>\<open>generate\<close> (lines 59 to 84). The extended keys belong to the package \<^verbatim>\<open>hdkeychain\<close>,
  which is not part of the repository: a key is a value of any type \<open>'k\<close>, and the two
  methods that \<^verbatim>\<open>generate\<close> calls are parameters, \<open>Child\<close> for \<^verbatim>\<open>(*ExtendedKey).Child\<close> and
  \<open>ECPubKey\<close> for \<^verbatim>\<open>(*ExtendedKey).ECPubKey\<close>, each returning a value or an error. The
  counters \<^verbatim>\<open>i\<close> and \<^verbatim>\<open>n\<close> are of type \<^verbatim>\<open>int\<close>; \<^verbatim>\<open>i\<close> runs from 0 and stays below \<^verbatim>\<open>n\<close>, so
  it never overflows, and \<^verbatim>\<open>uint32(i)\<close> keeps its low 32 bits.
\<close>

function generate_loop ::
  "('k \<Rightarrow> uint32 \<Rightarrow> error + 'k) \<Rightarrow> ('k \<Rightarrow> error + PublicKey) \<Rightarrow> 'k \<Rightarrow> int \<Rightarrow> int
    \<Rightarrow> string list \<Rightarrow> error + string list" where
  "generate_loop Child ECPubKey masterXPubKey0 n i result =
    (if i < n then
       (case Child masterXPubKey0 (word_of_int i) of
          Inl err \<Rightarrow> Inl err
        | Inr childXPubKey \<Rightarrow>
           (case ECPubKey childXPubKey of
              Inl err \<Rightarrow> Inl err
            | Inr pubKey \<Rightarrow>
               (case ECPubKeyToPrincipal pubKey of
                  Inl err \<Rightarrow> Inl err
                | Inr principal' \<Rightarrow>
                    generate_loop Child ECPubKey masterXPubKey0 n (i + 1)
                      (result @ [principal']))))
     else Inr result)"
  by pat_completeness auto
termination
  by (relation "measure (\<lambda>(Child, ECPubKey, masterXPubKey0, n, i, result). nat (n - i))") auto

declare generate_loop.simps [simp del]

definition generate ::
  "('k \<Rightarrow> uint32 \<Rightarrow> error + 'k) \<Rightarrow> ('k \<Rightarrow> error + PublicKey) \<Rightarrow> 'k \<Rightarrow> int
    \<Rightarrow> error + string list" where
  "generate Child ECPubKey masterXPubKey n =
    (case Child masterXPubKey 0 of
       Inl err \<Rightarrow> Inl err
     | Inr masterXPubKey0 \<Rightarrow> generate_loop Child ECPubKey masterXPubKey0 n 0 [])"

section \<open>What the claims speak of\<close>

text \<open>
  The pipeline for one leaf index, in the words of the specification: derive the leaf
  child at index \<open>i\<close> from the intermediate key, extract its public key point, and run
  the point through the encoders. The index reaches the collaborator as a \<^verbatim>\<open>uint32\<close>.
\<close>

definition leaf_principal ::
  "('k \<Rightarrow> uint32 \<Rightarrow> error + 'k) \<Rightarrow> ('k \<Rightarrow> error + PublicKey) \<Rightarrow> 'k \<Rightarrow> nat
    \<Rightarrow> error + string" where
  "leaf_principal Child ECPubKey k0 i =
    (case Child k0 (of_nat i) of
       Inl err \<Rightarrow> Inl err
     | Inr childXPubKey \<Rightarrow>
        (case ECPubKey childXPubKey of
           Inl err \<Rightarrow> Inl err
         | Inr pubKey \<Rightarrow> ECPubKeyToPrincipal pubKey))"

text \<open>The results of \<open>f\<close> at \<open>i\<close>, \<open>i + 1\<close>, ... (\<open>k\<close> of them), up to the first error.\<close>

fun collect :: "(nat \<Rightarrow> error + 'a) \<Rightarrow> nat \<Rightarrow> nat \<Rightarrow> error + 'a list" where
  "collect f i 0 = Inr []"
| "collect f i (Suc k) =
    (case f i of
       Inl err \<Rightarrow> Inl err
     | Inr x \<Rightarrow> (case collect f (Suc i) k of Inl err \<Rightarrow> Inl err | Inr xs \<Rightarrow> Inr (x # xs)))"

text \<open>
  A small key tree for the examples: a key is the path of indices that leads to it,
  a child at an index from \<^verbatim>\<open>0x80000000\<close> on (a hardened one) is refused, as for a public
  parent, and the point of a key is the generator of the curve or its double, by the
  parity of the last index.
\<close>

definition demo_Child :: "uint32 list \<Rightarrow> uint32 \<Rightarrow> error + uint32 list" where
  "demo_Child k i =
    (if i < 0x80000000 then Inr (k @ [i])
     else Inl (KeychainError ''cannot derive a hardened key from a public key''))"

definition point_G :: PublicKey where
  "point_G = \<lparr> Curve = S256, X = Gx S256, Y = Gy S256 \<rparr>"

definition point_2G :: PublicKey where
  "point_2G = \<lparr> Curve = S256,
     X = 0xC6047F9441ED7D6D3045406E95C07CD85C778E4B8CEF3CA7ABAC09B95C709EE5,
     Y = 0x1AE168FEA63DC339A3C58419466CEAEEF7F632653266D0E1236431A950CFE52A \<rparr>"

definition demo_ECPubKey :: "uint32 list \<Rightarrow> error + PublicKey" where
  "demo_ECPubKey k =
    (if k = [] then Inl (KeychainError ''no key'')
     else if even (unat (last k)) then Inr point_G else Inr point_2G)"

text \<open>A tree whose derivation fails from index \<open>limit\<close> on.\<close>

definition short_Child :: "uint32 \<Rightarrow> uint32 list \<Rightarrow> uint32 \<Rightarrow> error + uint32 list" where
  "short_Child limit k i =
    (if i < limit then Inr (k @ [i]) else Inl (KeychainError ''invalid child''))"

text \<open>
  The fingerprint in the words of the specification: the 28-byte digest, the tag byte
  \<^verbatim>\<open>0x02\<close> after it, the checksum in four big-endian bytes before both, the base-32 text
  of the 33 bytes in lowercase, cut into groups of five characters with a hyphen between
  neighbours.
\<close>

text \<open>\<open>big_endian k x\<close>: the \<open>k\<close> low base-256 digits of \<open>x\<close>, the most significant first.\<close>

definition big_endian :: "nat \<Rightarrow> nat \<Rightarrow> byte list" where
  "big_endian k x = map (\<lambda>j. of_nat (x div 256 ^ (k - 1 - j) mod 256)) [0..<k]"

text \<open>Consecutive groups of \<open>n\<close> elements; the last group holds what remains.\<close>

function chunks_of :: "nat \<Rightarrow> 'a list \<Rightarrow> 'a list list" where
  "chunks_of n xs = (if n = 0 \<or> xs = [] then [] else take n xs # chunks_of n (drop n xs))"
  by pat_completeness auto
termination
  by (relation "measure (\<lambda>(n, xs). length xs)") auto

declare chunks_of.simps [simp del]

text \<open>The groups with a hyphen between neighbours.\<close>

fun hyphenate :: "string list \<Rightarrow> string" where
  "hyphenate [] = []"
| "hyphenate (g # gs) = g @ concat (map (\<lambda>h. CHR ''-'' # h) gs)"

text \<open>The lowercase letter of each capital, by the table of the two alphabets.\<close>

definition lowercase :: "char \<Rightarrow> char" where
  "lowercase c =
    (case map_of (zip ''ABCDEFGHIJKLMNOPQRSTUVWXYZ'' ''abcdefghijklmnopqrstuvwxyz'') c of
       Some l \<Rightarrow> l
     | None \<Rightarrow> c)"

definition lower_alphabet :: string where
  "lower_alphabet = ''abcdefghijklmnopqrstuvwxyz234567''"

definition principal_of_der :: "byte list \<Rightarrow> string" where
  "principal_of_der D =
    (let T = Sum224 D @ [0x02];
         C = big_endian 4 (unat (ChecksumIEEE T))
     in hyphenate (chunks_of 5 (map lowercase (EncodeToString (C @ T)))))"

text \<open>
  Notions for the proofs about \<^verbatim>\<open>SplitN\<close>: a string of bytes below \<^verbatim>\<open>0x80\<close>, the rune of
  such a byte, the chunks that a state of the loop stands for once the loop is over, and
  the text that \<^verbatim>\<open>SelfAuthenticating\<close> hands to \<^verbatim>\<open>SplitN\<close>.
\<close>

definition ascii :: "string \<Rightarrow> bool" where
  "ascii s \<longleftrightarrow> list_all (\<lambda>c. of_char c < (128::nat)) s"

definition rune_of_char :: "char \<Rightarrow> rune" where
  "rune_of_char c = ucast (byte_of_char c)"

fun final_chunks :: "string list \<times> rune list \<times> nat \<Rightarrow> string list" where
  "final_chunks (chunks, chunk, i) =
     (if i > 0 then chunks @ [string_of_runes (take i chunk)] else chunks)"

definition fingerprint_text :: "byte list \<Rightarrow> string" where
  "fingerprint_text der =
    (let data = Sum224 der @ [2]
     in ToLower (EncodeToString (PutUint32 (ChecksumIEEE data) @ data)))"

section \<open>Groups of a list\<close>

lemma chunks_of_Nil [simp]: "chunks_of n [] = []"
  by (simp add: chunks_of.simps)

lemma chunks_of_short: "0 < n \<Longrightarrow> xs \<noteq> [] \<Longrightarrow> length xs \<le> n \<Longrightarrow> chunks_of n xs = [xs]"
  by (subst chunks_of.simps) simp

lemma chunks_of_append: "0 < n \<Longrightarrow> length xs = n \<Longrightarrow> chunks_of n (xs @ ys) = xs # chunks_of n ys"
  by (subst chunks_of.simps) auto

lemma chunks_of_map: "chunks_of n (map f xs) = map (map f) (chunks_of n xs)"
proof (induction n xs rule: chunks_of.induct)
  case (1 n xs)
  show ?case
  proof (cases "n = 0 \<or> xs = []")
    case True
    then show ?thesis by (auto simp: chunks_of.simps)
  next
    case False
    with 1 show ?thesis
      by (subst chunks_of.simps, subst (2) chunks_of.simps) (simp add: take_map drop_map)
  qed
qed

lemma concat_chunks_of: "0 < n \<Longrightarrow> concat (chunks_of n xs) = xs"
proof (induction n xs rule: chunks_of.induct)
  case (1 n xs)
  show ?case
  proof (cases "xs = []")
    case True
    then show ?thesis by simp
  next
    case False
    with 1 show ?thesis
      by (subst chunks_of.simps) simp
  qed
qed

lemma ceil_div_small:
  assumes "0 < n" "0 < L" "L \<le> n"
  shows "(L + n - 1) div n = (1::nat)"
  by (metis (no_types, lifting) ext Nat.add_diff_assoc add.commute
    add.right_neutral add_strict_increasing assms(2,3) div_add_self1
    div_le_dividend div_less less_diff_conv2 less_numeral_extra(1))

lemma ceil_div_step:
  assumes "0 < n" "n < L"
  shows "(L + n - 1) div n = Suc ((L - n + n - 1) div n)"
  by (metis (no_types, lifting) Nat.add_diff_assoc2 Suc_diff_Suc add.commute
    assms(1,2) div_add_self2 le_add_diff_inverse less_or_eq_imp_le
    nat_neq_iff not_add_less2 plus_1_eq_Suc)

lemma length_chunks_of: "0 < n \<Longrightarrow> length (chunks_of n xs) = (length xs + n - 1) div n"
proof (induction n xs rule: chunks_of.induct)
  case (1 n xs)
  show ?case
  proof (cases "xs = []")
    case True
    with 1(2) show ?thesis by simp
  next
    case False
    then have pos: "0 < length xs" by simp
    have ih: "length (chunks_of n (drop n xs)) = (length xs - n + n - 1) div n"
      using 1 False by simp
    show ?thesis
    proof (cases "length xs \<le> n")
      case True
      have "chunks_of n xs = [xs]"
        using False 1(2) True by (rule_tac chunks_of_short)
      moreover have "(length xs + n - 1) div n = 1"
        using 1(2) pos True by (rule ceil_div_small)
      ultimately show ?thesis by simp
    next
      case False
      then have "(length xs + n - 1) div n = Suc ((length xs - n + n - 1) div n)"
        using 1(2) by (simp only: ceil_div_step not_le)
      with ih \<open>xs \<noteq> []\<close> 1(2) show ?thesis
        by (subst chunks_of.simps) simp
    qed
  qed
qed

section \<open>SplitN on text below 0x80\<close>

lemma byte_of_char_less:
  "of_char c < (128::nat) \<Longrightarrow> byte_of_char c < 0x80"
  by (simp add: byte_of_char_def word_less_nat_alt unat_of_nat)

lemma char_of_byte_of_char [simp]: "char_of_byte (byte_of_char c) = c"
  by (simp add: char_of_byte_def byte_of_char_def unat_of_nat)

lemma range_runes_ascii:
  "list_all (\<lambda>b. b < 0x80) bs \<Longrightarrow> range_runes bs = map ucast bs"
  by (induction bs) simp_all

lemma runes_of_string_ascii:
  "ascii s \<Longrightarrow> runes_of_string s = map rune_of_char s"
  unfolding runes_of_string_def ascii_def
  by (subst range_runes_ascii)
     (simp_all add: list_all_iff byte_of_char_less rune_of_char_def)

lemma encoderune_ascii:
  assumes "b < 0x80"
  shows "encoderune (ucast (b :: byte)) = [b]"
proof -
  have "unat b < 128"
    using assms by (simp add: word_less_nat_alt)
  then have "(ucast b :: rune) \<le> 0x7F"
    by (simp add: word_le_nat_alt unsigned_ucast_eq take_bit_nat_eq_self)
  moreover have "(ucast (ucast b :: rune) :: byte) = b"
    by (rule bit_word_eqI) (simp add: bit_simps)
  ultimately show ?thesis
    by (simp add: encoderune_def)
qed

lemma string_of_runes_ascii:
  "ascii s \<Longrightarrow> string_of_runes (map rune_of_char s) = s"
  unfolding ascii_def
  by (induction s)
     (simp_all add: string_of_runes_def rune_of_char_def encoderune_ascii byte_of_char_less)

lemma ascii_take: "ascii s \<Longrightarrow> ascii (take n s)"
  by (auto simp: ascii_def list_all_iff dest: in_set_takeD)

lemma ascii_drop: "ascii s \<Longrightarrow> ascii (drop n s)"
  by (auto simp: ascii_def list_all_iff dest: in_set_dropD)

lemma SplitN_loop_chunks:
  assumes "0 < n" and "length chunk = n" and "i < n"
  shows "\<exists>st. SplitN_loop (int n) rs chunks chunk i = Inr st \<and>
           final_chunks st = chunks @ map string_of_runes (chunks_of n (take i chunk @ rs))"
  using assms(2,3)
proof (induction rs arbitrary: chunks chunk i)
  case Nil
  show ?case
  proof (cases "i = 0")
    case True
    then show ?thesis by simp
  next
    case False
    with Nil assms(1) have "chunks_of n (take i chunk) = [take i chunk]"
      by (intro chunks_of_short) auto
    with False show ?thesis by simp
  qed
next
  case (Cons r rs)
  let ?chunk = "chunk[i := r]"
  have len: "length ?chunk = n"
    using Cons.prems by simp
  have tk: "take (Suc i) ?chunk = take i chunk @ [r]"
    using Cons.prems by (simp add: take_Suc_conv_app_nth)
  show ?case
  proof (cases "Suc i = n")
    case True
    then have full: "take i chunk @ [r] = ?chunk"
      using tk len by simp
    have "chunks_of n ((take i chunk @ [r]) @ rs) = ?chunk # chunks_of n rs"
      unfolding full using assms(1) len by (rule chunks_of_append)
    moreover obtain st where
      "SplitN_loop (int n) rs (chunks @ [string_of_runes ?chunk]) ?chunk 0 = Inr st"
      "final_chunks st = (chunks @ [string_of_runes ?chunk])
           @ map string_of_runes (chunks_of n (take 0 ?chunk @ rs))"
      using Cons.IH [OF len assms(1)] by blast
    ultimately show ?thesis
      using Cons.prems True by (simp add: Let_def)
  next
    case False
    then have lt: "Suc i < n"
      using Cons.prems by simp
    obtain st where
      "SplitN_loop (int n) rs chunks ?chunk (Suc i) = Inr st"
      "final_chunks st = chunks @ map string_of_runes (chunks_of n (take (Suc i) ?chunk @ rs))"
      using Cons.IH [OF len lt] by blast
    then show ?thesis
      using Cons.prems False by (simp add: Let_def tk)
  qed
qed

lemma map_string_of_runes_chunks:
  "ascii s \<Longrightarrow> map string_of_runes (chunks_of n (map rune_of_char s)) = chunks_of n s"
proof (induction n s rule: chunks_of.induct)
  case (1 n xs)
  show ?case
  proof (cases "n = 0 \<or> xs = []")
    case True
    then show ?thesis by (auto simp: chunks_of.simps)
  next
    case False
    then have "map string_of_runes (chunks_of n (map rune_of_char (drop n xs))) =
        chunks_of n (drop n xs)"
      using 1 by (simp add: ascii_drop)
    moreover have "string_of_runes (map rune_of_char (take n xs)) = take n xs"
      using 1(2) by (simp add: string_of_runes_ascii ascii_take)
    ultimately show ?thesis
      using False
      by (subst chunks_of.simps, subst (2) chunks_of.simps) (simp add: take_map drop_map)
  qed
qed

lemma SplitN_ascii:
  assumes "ascii s" and "0 < n" and "n < length s"
  shows "SplitN s (int n) = Inr (chunks_of n s)"
proof -
  obtain st where st:
    "SplitN_loop (int n) (map rune_of_char s) [] (replicate n 0) 0 = Inr st"
    "final_chunks st = [] @ map string_of_runes
        (chunks_of n (take 0 (replicate n 0) @ map rune_of_char s))"
    using SplitN_loop_chunks [OF assms(2), of "replicate n 0" 0 "map rune_of_char s" "[]"]
      assms(2) by auto
  obtain chunks chunk i where "st = (chunks, chunk, i)"
    by (cases st) auto
  with st assms show ?thesis
    by (simp add: SplitN_def runes_of_string_ascii map_string_of_runes_chunks)
qed

section \<open>The base-32 text and its groups\<close>

lemma length_quantum [simp]: "length (quantum src) = 8"
  by (simp add: quantum_def Let_def)

lemma length_encode_chars [simp]: "length (encode_chars room src) = min room 8"
  by (simp add: encode_chars_def min_def)

lemma unat_and_31: "unat ((v :: byte) AND 31) < 32"
proof -
  have "v AND 31 \<le> 31"
    by (rule word_and_le1)
  then show ?thesis
    by (simp add: word_le_nat_alt)
qed

lemma length_encodeStd [simp]: "length encodeStd = 32"
  by (simp add: encodeStd_def)

lemma set_encode_chars: "set (encode_chars room src) \<subseteq> set encodeStd"
proof -
  have "set (map (\<lambda>v. encodeStd ! unat (v AND 31)) (quantum src)) \<subseteq> set encodeStd"
    using unat_and_31 by (auto intro!: nth_mem)
  then show ?thesis
    unfolding encode_chars_def by (meson set_take_subset subset_trans)
qed

lemma length_Encode:
  "room = (length src * 8 + 4) div 5 \<Longrightarrow> length (Encode room src) = room"
proof (induction room src rule: Encode.induct)
  case (1 room s0 s1 s2 s3 s4 rest)
  have split: "(length (s0 # s1 # s2 # s3 # s4 # rest) * 8 + 4) div 5 =
      (length rest * 8 + 4) div 5 + 8"
    by simp
  then have "room - 8 = (length rest * 8 + 4) div 5" and "8 \<le> room"
    using 1(2) by simp_all
  with 1(1) show ?case by simp
qed simp_all

lemma set_Encode: "set (Encode room src) \<subseteq> set encodeStd"
  by (induction room src rule: Encode.induct) (use set_encode_chars in auto)

lemma length_EncodeToString: "length (EncodeToString src) = (length src * 8 + 4) div 5"
  by (simp add: EncodeToString_def EncodedLen_def length_Encode)

lemma set_EncodeToString: "set (EncodeToString src) \<subseteq> set encodeStd"
  by (simp add: EncodeToString_def set_Encode)

lemma lower_encodeStd:
  "list_all (\<lambda>c. lower_char c = lowercase c \<and> lower_char c \<in> set lower_alphabet) encodeStd"
  by code_simp

lemma lower_alphabet_ascii:
  "list_all (\<lambda>c. of_char c < (128::nat) \<and> c \<noteq> CHR ''-'') lower_alphabet"
  by (simp add: lower_alphabet_def)

lemma Join_hyphenate: "Join gs ''-'' = hyphenate gs"
  by (induction gs "''-''" rule: Join.induct) simp_all

lemma length_hyphenate:
  "length (hyphenate gs) = length (concat gs) + (length gs - 1)"
proof (cases gs)
  case Nil
  then show ?thesis by simp
next
  case (Cons g hs)
  have "length (concat (map (\<lambda>h. CHR ''-'' # h) hs)) = length (concat hs) + length hs"
    by (induction hs) simp_all
  with Cons show ?thesis by simp
qed


lemma set_hyphenate: "set (hyphenate gs) \<subseteq> insert CHR ''-'' (set (concat gs))"
  by (cases gs) auto

lemma length_PutUint32 [simp]: "length (PutUint32 v) = 4"
  by (simp add: PutUint32_def)

lemma length_Sum224 [simp]: "length (Sum224 data) = 28"
  by (simp add: Sum224_def split: prod.splits)

lemma ucast_drop_bit_byte:
  "(ucast (drop_bit n (v :: uint32)) :: byte) = of_nat (unat v div 2 ^ n mod 256)"
proof -
  have "unat (ucast (drop_bit n v) :: byte) = unat v div 2 ^ n mod 256"
    by (simp only: unsigned_ucast_eq unat_drop_bit_eq)
       (simp add: drop_bit_eq_div take_bit_eq_mod)
  then show ?thesis
    unfolding word_unat_eq_iff by (simp only: unat_of_nat) simp
qed

lemma PutUint32_big_endian: "PutUint32 v = big_endian 4 (unat v)"
proof -
  have "[0..<4] = [0, 1, 2, 3]"
    by (simp add: upt_rec)
  moreover have "(ucast v :: byte) = of_nat (unat v div 2 ^ 0 mod 256)"
    using ucast_drop_bit_byte [of 0 v] by simp
  ultimately show ?thesis
    by (simp add: PutUint32_def big_endian_def ucast_drop_bit_byte)
qed

lemma length_fingerprint_text: "length (fingerprint_text der) = 53"
  by (simp add: fingerprint_text_def Let_def ToLower_def length_EncodeToString)

lemma ToLower_EncodeToString:
  "ToLower (EncodeToString src) = map lowercase (EncodeToString src)"
  using set_EncodeToString [of src] lower_encodeStd
  by (auto simp: ToLower_def list_all_iff)

lemma set_fingerprint_text: "set (fingerprint_text der) \<subseteq> set lower_alphabet"
  using set_EncodeToString lower_encodeStd
  by (fastforce simp: fingerprint_text_def Let_def ToLower_def list_all_iff)

lemma ascii_fingerprint_text: "ascii (fingerprint_text der)"
  using set_fingerprint_text [of der] lower_alphabet_ascii
  by (auto simp: ascii_def list_all_iff)


lemma SplitN_fingerprint_text:
  "SplitN (fingerprint_text der) 5 = Inr (chunks_of 5 (fingerprint_text der))"
  using SplitN_ascii [OF ascii_fingerprint_text, of 5 der]
  by (simp add: length_fingerprint_text)

lemma SelfAuthenticating_hyphenate:
  "SelfAuthenticating der = Inr (hyphenate (chunks_of 5 (fingerprint_text der)))"
proof -
  have "SelfAuthenticating der =
      (case SplitN (fingerprint_text der) 5 of
         Inl panic \<Rightarrow> Inl panic
       | Inr chunks \<Rightarrow> Inr (Join chunks ''-''))"
    by (simp add: SelfAuthenticating_def fingerprint_text_def Let_def)
  then show ?thesis
    by (simp add: SplitN_fingerprint_text Join_hyphenate)
qed

lemma fingerprint_text_spec:
  "fingerprint_text D =
    map lowercase (EncodeToString (big_endian 4 (unat (ChecksumIEEE (Sum224 D @ [2])))
       @ Sum224 D @ [2]))"
  by (simp add: fingerprint_text_def Let_def ToLower_EncodeToString PutUint32_big_endian)

lemma length_principal:
  "length (hyphenate (chunks_of 5 (fingerprint_text der))) = 63"
  by (simp add: length_hyphenate concat_chunks_of length_chunks_of length_fingerprint_text)


section \<open>The fingerprint encoder\<close>

text \<open>
  C1. For every byte sequence \<open>D\<close>, \<^verbatim>\<open>SelfAuthenticating(D)\<close> returns (and does not panic)
  the string that the steps of the specification give: the SHA-224 digest of \<open>D\<close>, 28
  bytes; the tag byte \<^verbatim>\<open>0x02\<close> after it, 29 bytes; the IEEE CRC-32 of these 29 bytes in
  four big-endian bytes before them, 33 bytes; the base-32 text of the 33 bytes in the
  standard alphabet without padding; that text in lowercase; its consecutive groups of
  five characters joined with hyphens.
\<close>

theorem SelfAuthenticating_follows_specification:
  "SelfAuthenticating D = Inr (principal_of_der D)
   \<and> length (Sum224 D) = 28
   \<and> length (Sum224 D @ [0x02]) = 29
   \<and> length (big_endian 4 (unat (ChecksumIEEE (Sum224 D @ [0x02]))) @ Sum224 D @ [0x02]) = 33"
  by (simp add: SelfAuthenticating_hyphenate principal_of_der_def Let_def
      fingerprint_text_spec big_endian_def)

text \<open>
  C2. Every principal that the fingerprint encoder makes has exactly 63 characters (53
  base-32 characters and 10 hyphens), whatever the DER bytes are.
\<close>

theorem principal_length: "\<exists>p. SelfAuthenticating D = Inr p \<and> length p = 63"
  by (simp add: SelfAuthenticating_hyphenate length_principal)


text \<open>
  C8. Every character of a principal is the hyphen or a character of the lowercase
  base-32 alphabet: a letter from \<^verbatim>\<open>a\<close> to \<^verbatim>\<open>z\<close> or a digit from \<^verbatim>\<open>2\<close> to \<^verbatim>\<open>7\<close>.
\<close>

theorem principal_alphabet:
  "\<exists>p. SelfAuthenticating D = Inr p
     \<and> set p \<subseteq> insert CHR ''-'' (set ''abcdefghijklmnopqrstuvwxyz234567'')"
proof -
  have "set (hyphenate (chunks_of 5 (fingerprint_text D)))
      \<subseteq> insert CHR ''-'' (set (fingerprint_text D))"
    using set_hyphenate [of "chunks_of 5 (fingerprint_text D)"]
    by (simp add: concat_chunks_of)
  then have "set (hyphenate (chunks_of 5 (fingerprint_text D)))
      \<subseteq> insert CHR ''-'' (set lower_alphabet)"
    using set_fingerprint_text [of D] by blast
  then show ?thesis
    unfolding lower_alphabet_def [symmetric]
    by (simp only: SelfAuthenticating_hyphenate sum.inject simp_thms ex_simps)
qed

section \<open>The loop of generate\<close>

lemma generate_loop_collect:
  "0 \<le> i \<Longrightarrow> nat (n - i) = k \<Longrightarrow>
   generate_loop Child ECPubKey k0 n i acc =
     (case collect (leaf_principal Child ECPubKey k0) (nat i) k of
        Inl err \<Rightarrow> Inl err
      | Inr xs \<Rightarrow> Inr (acc @ xs))"
proof (induction k arbitrary: i acc)
  case 0
  then have "\<not> i < n" by simp
  then show ?case
    by (subst generate_loop.simps) simp
next
  case (Suc k)
  then have lt: "i < n" and nxt: "nat (n - (i + 1)) = k" and pos: "0 \<le> i + 1"
    by simp_all
  have idx: "(word_of_int i :: uint32) = of_nat (nat i)"
    using Suc.prems(1) by simp
  have suc: "nat (i + 1) = Suc (nat i)"
    using Suc.prems(1) by simp
  have step: "generate_loop Child ECPubKey k0 n i acc =
      (case leaf_principal Child ECPubKey k0 (nat i) of
         Inl err \<Rightarrow> Inl err
       | Inr p \<Rightarrow> generate_loop Child ECPubKey k0 n (i + 1) (acc @ [p]))"
    by (subst generate_loop.simps)
       (simp add: lt idx leaf_principal_def split: sum.splits)
  show ?case
    unfolding step by (simp add: Suc.IH [OF pos nxt] suc split: sum.splits)
qed

lemma generate_collect:
  "generate Child ECPubKey masterXPubKey n =
    (case Child masterXPubKey 0 of
       Inl err \<Rightarrow> Inl err
     | Inr k0 \<Rightarrow> collect (leaf_principal Child ECPubKey k0) 0 (nat n))"
  by (simp add: generate_def generate_loop_collect [where k = "nat n"] split: sum.splits)

lemma collect_Inr_iff:
  "collect f i k = Inr xs \<longleftrightarrow> length xs = k \<and> (\<forall>j<k. f (i + j) = Inr (xs ! j))"
proof (induction k arbitrary: i xs)
  case 0
  then show ?case by auto
next
  case (Suc k)
  show ?case
  proof (cases xs)
    case Nil
    then show ?thesis by (auto split: sum.splits)
  next
    case (Cons y ys)
    have "(\<forall>j<Suc k. f (i + j) = Inr ((y # ys) ! j)) \<longleftrightarrow>
          f i = Inr y \<and> (\<forall>j<k. f (Suc i + j) = Inr (ys ! j))"
      by (auto simp: less_Suc_eq_0_disj)
    with Cons Suc.IH [of "Suc i" ys] show ?thesis
      by (auto split: sum.splits)
  qed
qed

lemma collect_Inl:
  "j < k \<Longrightarrow> f (i + j) = Inl e \<Longrightarrow> \<exists>e'. collect f i k = Inl e'"
  by (cases "collect f i k") (auto simp: collect_Inr_iff)

lemma demo_Child_0: "demo_Child [] 0 = Inr [0]"
  by (simp add: demo_Child_def)



text \<open>
  C10. A negative count behaves as the count 0 does: the loop body never runs, so when
  the intermediate child is derived the result is the empty list and no error; the count
  is never refused and never yields a principal.
\<close>

theorem generate_negative_count:
  assumes "n < 0" and "Child masterXPubKey 0 = Inr masterXPubKey0"
  shows "generate Child ECPubKey masterXPubKey n = generate Child ECPubKey masterXPubKey 0
    \<and> generate Child ECPubKey masterXPubKey n = Inr []"
  using assms by (simp add: generate_collect)

theorem generate_negative_count_witness:
  "(- 3 :: int) < 0 \<and> demo_Child [] 0 = Inr [0]
   \<and> generate demo_Child demo_ECPubKey [] (- 3) = generate demo_Child demo_ECPubKey [] 0
   \<and> generate demo_Child demo_ECPubKey [] (- 3) = Inr []"
  using generate_negative_count [of "- 3" demo_Child "[]" "[0]" demo_ECPubKey]
  by (simp add: demo_Child_0 generate_collect)

end
